theory Spec2Isabelle
  imports Main "HOL-Library.Word"
begin

unbundle bit_operations_syntax

section \<open>Python values\<close>

text \<open>
  The values that \<^verbatim>\<open>json.loads\<close> produces, and that the interface passes around:
  \<^verbatim>\<open>None\<close>, booleans, unbounded integers, floats (the bit pattern of the IEEE double),
  strings, lists and dictionaries with string keys. A dictionary is an association list
  read with \<open>map_of\<close>.
\<close>

datatype json =
    JNull
  | JBool bool
  | JInt int
  | JFloat "64 word"
  | JString string
  | JList "json list"
  | JDict "(string \<times> json) list"

text \<open>Python's truth value of an object (\<^verbatim>\<open>not x\<close> is its negation).\<close>

fun truthy :: "json \<Rightarrow> bool" where
  "truthy JNull = False"
| "truthy (JBool b) = b"
| "truthy (JInt i) = (i \<noteq> 0)"
| "truthy (JFloat w) = (push_bit 1 w \<noteq> 0)"
| "truthy (JString s) = (s \<noteq> [])"
| "truthy (JList xs) = (xs \<noteq> [])"
| "truthy (JDict d) = (d \<noteq> [])"

text \<open>
  \<^verbatim>\<open>isinstance(x, int)\<close> holds of integers and of booleans (\<^verbatim>\<open>bool\<close> is a subclass of
  \<^verbatim>\<open>int\<close>); \<open>int_value\<close> is then the number the value compares equal to
  (\<^verbatim>\<open>True == 1\<close>), and \<open>None\<close> for every other value.
\<close>

fun int_value :: "json \<Rightarrow> int option" where
  "int_value (JInt i) = Some i"
| "int_value (JBool b) = Some (if b then 1 else 0)"
| "int_value _ = None"

section \<open>Exceptions\<close>

text \<open>
  The messages of \<^verbatim>\<open>PyVLXException\<close> are kept as the template that was formatted and
  the value formatted into it.
\<close>

datatype message =
    RequestTimeout
  | HTTPError
  | OSErrorTalking
  | NoElementToken json
  | NoElementResult json
  | RequestFailed json
  | CouldNotEvaluateErrors json
  | UnknownErrorCode json

text \<open>
  The exceptions with which \<^verbatim>\<open>json.loads\<close> rejects a text: \<^verbatim>\<open>json.JSONDecodeError\<close> (a
  subclass of \<^verbatim>\<open>ValueError\<close>) where the text breaks the grammar, a plain \<^verbatim>\<open>ValueError\<close>
  where an integer literal has more digits than the interpreter converts, and
  \<^verbatim>\<open>RecursionError\<close> where the text nests deeper than the interpreter's stack.
\<close>

datatype decoder_error = JSONDecodeError | ValueError | RecursionError

datatype type_error =
    NotIterable json
  | BadIndex json
  | NotSubscriptable json
  | CannotConcatenate json

text \<open>
  Modelled from the spec: the exception classes \<^verbatim>\<open>PyVLXException\<close> and
  \<^verbatim>\<open>InvalidToken\<close> of \<^verbatim>\<open>pyvlx/exception.py\<close> (the invalid-token kind carries the
  error code). The other constructors are the exceptions of Python and of the libraries
  that the interface catches or lets through; \<open>DecoderError\<close> is an exception raised by
  \<^verbatim>\<open>json.loads\<close>, with its class.
\<close>

datatype exn =
    PyVLXException message
  | InvalidToken int
  | AsyncioTimeoutError
  | AiohttpClientError
  | OSError
  | DecoderError decoder_error
  | TypeError type_error
  | KeyError string
  | OtherError string

text \<open>\<^verbatim>\<open>isinstance(e, PyVLXException)\<close>: the typed failures of the library.\<close>

fun is_pyvlx_exception :: "exn \<Rightarrow> bool" where
  "is_pyvlx_exception (PyVLXException m) = True"
| "is_pyvlx_exception (InvalidToken c) = True"
| "is_pyvlx_exception _ = False"

section \<open>Operators on values\<close>

fun startswith :: "string \<Rightarrow> string \<Rightarrow> bool" where
  "startswith s [] = True"
| "startswith [] (p # ps) = False"
| "startswith (c # cs) (p # ps) = (c = p \<and> startswith cs ps)"

fun str_contains :: "string \<Rightarrow> string \<Rightarrow> bool" where
  "str_contains [] sub = (sub = [])"
| "str_contains (c # cs) sub = (startswith (c # cs) sub \<or> str_contains cs sub)"

text \<open>\<^verbatim>\<open>key in x\<close> for a string \<^verbatim>\<open>key\<close>.\<close>

fun py_in :: "string \<Rightarrow> json \<Rightarrow> exn + bool" where
  "py_in key (JDict d) = Inr (map_of d key \<noteq> None)"
| "py_in key (JList xs) = Inr (JString key \<in> set xs)"
| "py_in key (JString s) = Inr (str_contains s key)"
| "py_in key x = Inl (TypeError (NotIterable x))"

text \<open>\<^verbatim>\<open>x[key]\<close> for a string \<^verbatim>\<open>key\<close>.\<close>

fun py_getitem :: "json \<Rightarrow> string \<Rightarrow> exn + json" where
  "py_getitem (JDict d) key = (case map_of d key of None \<Rightarrow> Inl (KeyError key) | Some v \<Rightarrow> Inr v)"
| "py_getitem (JList xs) key = Inl (TypeError (BadIndex (JList xs)))"
| "py_getitem (JString s) key = Inl (TypeError (BadIndex (JString s)))"
| "py_getitem x key = Inl (TypeError (NotSubscriptable x))"

text \<open>\<^verbatim>\<open>s.find(c)\<close>: the index of the first occurrence, or -1.\<close>

fun str_find :: "string \<Rightarrow> char \<Rightarrow> int" where
  "str_find [] c = - 1"
| "str_find (x # xs) c =
     (if x = c then 0 else (let i = str_find xs c in if i < 0 then - 1 else i + 1))"

section \<open>The interface\<close>

record config =
  host :: string
  password :: string

record request =
  url :: string
  data :: json
  headers :: "(string \<times> string) list"

text \<open>
  What one \<^verbatim>\<open>requests.post\<close> does: it raises, or it returns a response whose text is
  read. The gateway is a function of the requests sent so far and of the current one, and
  nothing is assumed of it: it may answer any text and its transport may raise any
  exception (the exceptions of \<^verbatim>\<open>requests\<close> are \<^verbatim>\<open>OSError\<close>s). The request is
  recorded with its body before \<^verbatim>\<open>json.dumps\<close>, which cannot fail on these values; the
  \<^verbatim>\<open>print\<close> of the request is left out. \<^verbatim>\<open>json.loads\<close> is the parser of the standard
  library: it returns a value or rejects the text with one of its exceptions. Nothing is
  assumed of which texts it rejects, nor with which of them.
\<close>

datatype reply = Raises exn | Text string

record env =
  config :: config
  server :: "request list \<Rightarrow> request \<Rightarrow> reply"
  loads :: "string \<Rightarrow> decoder_error + json"

text \<open>The interface's field \<^verbatim>\<open>token\<close>, and the requests posted so far.\<close>

record state =
  token :: json
  sent :: "request list"

text \<open>
  The static methods of \<^verbatim>\<open>Interface\<close>. A string is a list of HOL characters;
  \<open>fix_response\<close> only compares them with the brace.
\<close>

definition fix_response :: "string \<Rightarrow> string" where
  "fix_response response =
     (let index = str_find response CHR ''{''
      in if index > 0 then drop (nat index) response else response)"

definition create_api_url :: "string \<Rightarrow> string \<Rightarrow> string" where
  "create_api_url h verb = ''http://'' @ h @ ''/api/v1/'' @ verb"

definition create_headers :: "bool \<Rightarrow> json \<Rightarrow> exn + (string \<times> string) list" where
  "create_headers add_authorization_token tok =
     (if add_authorization_token then
        (case tok of
           JString t \<Rightarrow>
             Inr [(''Content-Type'', ''application/json''), (''Authorization'', ''Bearer '' @ t)]
         | _ \<Rightarrow> Inl (TypeError (CannotConcatenate tok)))
      else Inr [(''Content-Type'', ''application/json'')])"

definition create_body :: "string \<Rightarrow> json \<Rightarrow> json" where
  "create_body action params =
     JDict ((''action'', JString action) #
            (if params \<noteq> JNull then [(''params'', params)] else []))"

text \<open>
  \<open>evaluate_errors\<close> never returns: each of its paths raises. The \<^verbatim>\<open>or\<close> chain of its
  test is evaluated from the left, so a response that is not a container raises the
  \<^verbatim>\<open>TypeError\<close> of \<^verbatim>\<open>in\<close> before anything else is tested.
\<close>

definition evaluate_errors :: "json \<Rightarrow> exn + unit" where
  "evaluate_errors json_response =
     (case py_in ''errors'' json_response of
        Inl e \<Rightarrow> Inl e
      | Inr False \<Rightarrow> Inl (PyVLXException (CouldNotEvaluateErrors json_response))
      | Inr True \<Rightarrow>
          (case py_getitem json_response ''errors'' of
             Inl e \<Rightarrow> Inl e
           | Inr (JList []) \<Rightarrow> Inl (PyVLXException (CouldNotEvaluateErrors json_response))
           | Inr (JList (first_error # rest)) \<Rightarrow>
               (case int_value first_error of
                  None \<Rightarrow> Inl (PyVLXException (CouldNotEvaluateErrors json_response))
                | Some c \<Rightarrow>
                    if c \<in> set [402, 403, 405, 406] then Inl (InvalidToken c)
                    else Inl (PyVLXException (UnknownErrorCode first_error)))
           | Inr other \<Rightarrow> Inl (PyVLXException (CouldNotEvaluateErrors json_response))))"

definition evaluate_response :: "json \<Rightarrow> exn + unit" where
  "evaluate_response json_response =
     (case py_in ''errors'' json_response of
        Inl e \<Rightarrow> Inl e
      | Inr has_errors \<Rightarrow>
          (case (if has_errors then py_getitem json_response ''errors'' else Inr JNull) of
             Inl e \<Rightarrow> Inl e
           | Inr errors \<Rightarrow>
               if has_errors \<and> truthy errors then evaluate_errors json_response
               else
                 (case py_in ''result'' json_response of
                    Inl e \<Rightarrow> Inl e
                  | Inr False \<Rightarrow> Inl (PyVLXException (NoElementResult json_response))
                  | Inr True \<Rightarrow>
                      (case py_getitem json_response ''result'' of
                         Inl e \<Rightarrow> Inl e
                       | Inr result \<Rightarrow>
                           if \<not> truthy result
                           then Inl (PyVLXException (RequestFailed json_response))
                           else Inr ()))))"

text \<open>
  The methods that start with an underscore keep their names without it. A method that
  may raise returns its result or its exception together with the state it leaves.
\<close>

definition do_http_request_impl ::
  "env \<Rightarrow> string \<Rightarrow> json \<Rightarrow> (string \<times> string) list \<Rightarrow> state \<Rightarrow> (exn + json) \<times> state" where
  "do_http_request_impl e u body hdrs s =
     (let rq = \<lparr>url = u, data = body, headers = hdrs\<rparr>;
          s' = s\<lparr>sent := sent s @ [rq]\<rparr>
      in case server e (sent s) rq of
           Raises x \<Rightarrow> (Inl x, s')
         | Text t \<Rightarrow>
             (case loads e (fix_response t) of
                Inl err \<Rightarrow> (Inl (DecoderError err), s')
              | Inr j \<Rightarrow> (Inr j, s')))"

definition do_http_request ::
  "env \<Rightarrow> string \<Rightarrow> json \<Rightarrow> (string \<times> string) list \<Rightarrow> state \<Rightarrow> (exn + json) \<times> state" where
  "do_http_request e u body hdrs s =
     (case do_http_request_impl e u body hdrs s of
        (Inl AsyncioTimeoutError, s') \<Rightarrow> (Inl (PyVLXException RequestTimeout), s')
      | (Inl AiohttpClientError, s') \<Rightarrow> (Inl (PyVLXException HTTPError), s')
      | (Inl OSError, s') \<Rightarrow> (Inl (PyVLXException OSErrorTalking), s')
      | r \<Rightarrow> r)"

definition api_call_impl ::
  "env \<Rightarrow> string \<Rightarrow> string \<Rightarrow> json \<Rightarrow> bool \<Rightarrow> state \<Rightarrow> (exn + json) \<times> state" where
  "api_call_impl e verb action params add_authorization_token s =
     (let u = create_api_url (host (config e)) verb;
          body = create_body action params
      in case create_headers add_authorization_token (token s) of
           Inl x \<Rightarrow> (Inl x, s)
         | Inr hdrs \<Rightarrow> do_http_request e u body hdrs s)"

text \<open>The exceptions that the clause \<^verbatim>\<open>except InvalidToken\<close> catches.\<close>

definition is_invalid_token :: "exn \<Rightarrow> bool" where
  "is_invalid_token x = (case x of InvalidToken c \<Rightarrow> True | _ \<Rightarrow> False)"

text \<open>
  \<open>api_call\<close> calls \<open>refresh_token\<close>, which calls \<open>api_call\<close> without a token, and it
  calls itself once more as a retry: the two are defined together, and the recursion ends
  because a call without a token calls neither, and a retry does not retry.
\<close>

function api_call ::
  "env \<Rightarrow> string \<Rightarrow> string \<Rightarrow> json \<Rightarrow> bool \<Rightarrow> bool \<Rightarrow> state \<Rightarrow> (exn + json) \<times> state"
and refresh_token :: "env \<Rightarrow> state \<Rightarrow> (exn + unit) \<times> state" where
  "api_call e verb action params add_authorization_token retry s =
     (case (if add_authorization_token \<and> \<not> truthy (token s)
            then refresh_token e s else (Inr (), s)) of
        (Inl x, s1) \<Rightarrow> (Inl x, s1)
      | (Inr u, s1) \<Rightarrow>
          (case api_call_impl e verb action params add_authorization_token s1 of
             (Inr j, s2) \<Rightarrow> (Inr j, s2)
           | (Inl x, s2) \<Rightarrow>
               if is_invalid_token x then
                 (if \<not> retry \<and> add_authorization_token then
                    (case refresh_token e s2 of
                       (Inl y, s3) \<Rightarrow> (Inl y, s3)
                     | (Inr u', s3) \<Rightarrow>
                         api_call e verb action params add_authorization_token True s3)
                  else (Inl x, s2))
               else (Inl x, s2)))"
| "refresh_token e s =
     (case api_call e ''auth'' ''login'' (JDict [(''password'', JString (password (config e)))])
             False False s of
        (Inl x, s1) \<Rightarrow> (Inl x, s1)
      | (Inr json_response, s1) \<Rightarrow>
          (case py_in ''token'' json_response of
             Inl x \<Rightarrow> (Inl x, s1)
           | Inr False \<Rightarrow> (Inl (PyVLXException (NoElementToken json_response)), s1)
           | Inr True \<Rightarrow>
               (case py_getitem json_response ''token'' of
                  Inl x \<Rightarrow> (Inl x, s1)
                | Inr t \<Rightarrow> (Inr (), s1\<lparr>token := t\<rparr>))))"
  by pat_completeness auto
termination
  by (relation "measure (\<lambda>a. case a of
        Inl (e, verb, action, params, auth, retry, s) \<Rightarrow>
          (if auth then (if retry then 2 else 4) else 0)
      | Inr (e, s) \<Rightarrow> 1)") auto


section \<open>Notions used to state the properties\<close>

text \<open>The request that \<open>refresh_token\<close> posts: the login call, without a token.\<close>

definition login_request :: "env \<Rightarrow> request" where
  "login_request e =
     \<lparr>url = create_api_url (host (config e)) ''auth'',
      data = create_body ''login'' (JDict [(''password'', JString (password (config e)))]),
      headers = [(''Content-Type'', ''application/json'')]\<rparr>"

text \<open>A request that carries a bearer token.\<close>

definition authorised :: "request \<Rightarrow> bool" where
  "authorised rq = (map_of (headers rq) ''Authorization'' \<noteq> None)"

text \<open>
  The gateway answers the request with a text whose repaired form \<^verbatim>\<open>json.loads\<close> rejects
  with the exception \<open>err\<close>.
\<close>

definition parse_failed :: "env \<Rightarrow> request list \<Rightarrow> request \<Rightarrow> decoder_error \<Rightarrow> bool" where
  "parse_failed e hist rq err =
     (case server e hist rq of
        Raises x \<Rightarrow> False
      | Text t \<Rightarrow> loads e (fix_response t) = Inl err)"

text \<open>The held token is absent or a string.\<close>

fun none_or_str :: "json \<Rightarrow> bool" where
  "none_or_str JNull = True"
| "none_or_str (JString t) = True"
| "none_or_str _ = False"

text \<open>
  A gateway whose answers are well typed: its transport never raises, by itself, the
  \<^verbatim>\<open>TypeError\<close> of a failed string concatenation, and an object with which it answers the
  login request holds nothing but a string in its \<open>token\<close> field.
\<close>

definition well_typed_gateway :: "env \<Rightarrow> bool" where
  "well_typed_gateway e \<longleftrightarrow>
     (\<forall>hist rq. case server e hist rq of
        Raises x \<Rightarrow> (\<forall>v. x \<noteq> TypeError (CannotConcatenate v))
      | Text t \<Rightarrow>
          (rq = login_request e \<longrightarrow>
            (case loads e (fix_response t) of
               Inr (JDict d) \<Rightarrow>
                 (case map_of d ''token'' of Some v \<Rightarrow> (\<exists>str. v = JString str) | None \<Rightarrow> True)
             | _ \<Rightarrow> True)))"

text \<open>The result is not the \<^verbatim>\<open>TypeError\<close> that \<^verbatim>\<open>'Bearer ' + token\<close> raises.\<close>

definition no_concat_error :: "exn + 'a \<Rightarrow> bool" where
  "no_concat_error r \<longleftrightarrow> (\<forall>v. r \<noteq> Inl (TypeError (CannotConcatenate v)))"

text \<open>
  Between \<open>s\<close> and \<open>s'\<close> requests were only added, and a request among them that was
  answered with a text the parser rejects is the last one, the result \<open>r\<close> being the
  parser's exception.
\<close>

definition surfaces :: "env \<Rightarrow> state \<Rightarrow> exn + 'a \<Rightarrow> state \<Rightarrow> bool" where
  "surfaces e s r s' \<longleftrightarrow>
     (\<exists>new. sent s' = sent s @ new \<and>
        (\<forall>pre rq post err.
           new = pre @ rq # post \<and> parse_failed e (sent s @ pre) rq err
           \<longrightarrow> post = [] \<and> r = Inl (DecoderError err)))"

text \<open>
  Between \<open>s\<close> and \<open>s'\<close> requests were only added: at most \<open>n\<close> requests of the call
  itself (to \<open>u\<close>, with the body \<open>body\<close>, carrying a token exactly when \<open>auth\<close> holds) and at
  most \<open>l\<close> other requests, each of them the login request.
\<close>

definition exchanges ::
  "env \<Rightarrow> string \<Rightarrow> json \<Rightarrow> bool \<Rightarrow> state \<Rightarrow> state \<Rightarrow> nat \<Rightarrow> nat \<Rightarrow> bool" where
  "exchanges e u body auth s s' n l \<longleftrightarrow>
     (\<exists>new. sent s' = sent s @ new
        \<and> length (filter (\<lambda>rq. authorised rq = auth) new) \<le> n
        \<and> length (filter (\<lambda>rq. authorised rq \<noteq> auth) new) \<le> l
        \<and> (\<forall>rq \<in> set new. if authorised rq = auth then url rq = u \<and> data rq = body
                              else rq = login_request e))"

section \<open>Example gateways\<close>

text \<open>
  A gateway at host \<^verbatim>\<open>klf\<close> that answers every login with \<open>login_reply\<close>, the first
  request that carries a token with \<open>first_reply\<close> and every later such request with
  \<open>later_reply\<close>; and a parser that knows the four texts these examples use and rejects any other as
  ill-formed.
\<close>

definition demo_loads :: "string \<Rightarrow> decoder_error + json" where
  "demo_loads t =
     (if t = ''{\"errors\":[403]}'' then Inr (JDict [(''errors'', JList [JInt 403])])
      else if t = ''{\"result\":true}'' then Inr (JDict [(''result'', JBool True)])
      else if t = ''{\"token\":\"t2\"}'' then Inr (JDict [(''token'', JString ''t2'')])
      else if t = ''{\"token\":null}'' then Inr (JDict [(''token'', JNull)])
      else Inl JSONDecodeError)"

definition demo_env :: "reply \<Rightarrow> reply \<Rightarrow> reply \<Rightarrow> env" where
  "demo_env login_reply first_reply later_reply =
     \<lparr>config = \<lparr>host = ''klf'', password = ''secret''\<rparr>,
      server = (\<lambda>hist rq.
         if authorised rq
         then (if filter authorised hist = [] then first_reply else later_reply)
         else login_reply),
      loads = demo_loads\<rparr>"

declare api_call.simps [simp del] refresh_token.simps [simp del]

section \<open>Repairing the response text\<close>

lemma str_find_absent: "c \<notin> set s \<Longrightarrow> str_find s c = - 1"
  by (induction s) auto

lemma str_find_first: "c \<notin> set pre \<Longrightarrow> str_find (pre @ c # rest) c = int (length pre)"
  by (induction pre) (auto simp: Let_def)

lemma fix_response_at_first_brace:
  assumes "CHR ''{'' \<notin> set pre"
  shows "fix_response (pre @ CHR ''{'' # rest) = CHR ''{'' # rest"
proof -
  have "str_find (pre @ CHR ''{'' # rest) CHR ''{'' = int (length pre)"
    using assms by (rule str_find_first)
  then have "fix_response (pre @ CHR ''{'' # rest) =
     (if pre \<noteq> [] then drop (length pre) (pre @ CHR ''{'' # rest) else pre @ CHR ''{'' # rest)"
    unfolding fix_response_def Let_def by simp
  then show ?thesis by simp
qed

lemma fix_response_no_brace: "CHR ''{'' \<notin> set s \<Longrightarrow> fix_response s = s"
  by (simp add: fix_response_def str_find_absent)

text \<open>
  C9. \<open>fix_response\<close> returns its input from the first \<^verbatim>\<open>{\<close> on: when \<open>pre\<close> holds no
  brace, \<open>pre\<close> followed by a brace and \<open>rest\<close> becomes the brace and \<open>rest\<close>. A text that
  begins with a brace is returned as it is, and so is a text without any brace. The three
  examples of the specification are evaluated.
\<close>

theorem fix_response_drops_prefix:
  "(CHR ''{'' \<notin> set pre \<longrightarrow> fix_response (pre @ CHR ''{'' # rest) = CHR ''{'' # rest)
   \<and> fix_response (CHR ''{'' # rest) = CHR ''{'' # rest
   \<and> (CHR ''{'' \<notin> set s \<longrightarrow> fix_response s = s)
   \<and> fix_response '')]}',{\"result\":true}'' = ''{\"result\":true}''
   \<and> fix_response ''{\"result\":true}'' = ''{\"result\":true}''
   \<and> fix_response ''not json'' = ''not json''"
proof (intro conjI impI)
  assume "CHR ''{'' \<notin> set pre"
  then show "fix_response (pre @ CHR ''{'' # rest) = CHR ''{'' # rest"
    by (rule fix_response_at_first_brace)
next
  show "fix_response (CHR ''{'' # rest) = CHR ''{'' # rest"
    by (simp add: fix_response_def)
next
  assume "CHR ''{'' \<notin> set s"
  then show "fix_response s = s" by (rule fix_response_no_brace)
qed (simp_all add: fix_response_def)

theorem fix_response_drops_prefix_witness:
  "CHR ''{'' \<notin> set ''ab''
   \<and> fix_response (''ab'' @ CHR ''{'' # ''c{d'') = CHR ''{'' # ''c{d''
   \<and> fix_response ''ab'' = ''ab''"
  using fix_response_drops_prefix [of "''ab''" "''c{d''" "''ab''"]
  by simp

section \<open>Classifying an envelope\<close>

lemma evaluate_errors_dict:
  "evaluate_errors (JDict d) =
     (case map_of d ''errors'' of
        Some (JList (x # rest)) \<Rightarrow>
          (case int_value x of
             None \<Rightarrow> Inl (PyVLXException (CouldNotEvaluateErrors (JDict d)))
           | Some c \<Rightarrow>
               if c \<in> {402, 403, 405, 406} then Inl (InvalidToken c)
               else Inl (PyVLXException (UnknownErrorCode x)))
      | _ \<Rightarrow> Inl (PyVLXException (CouldNotEvaluateErrors (JDict d))))"
  by (simp add: evaluate_errors_def split: option.splits json.splits list.splits)

lemma evaluate_response_dict:
  "evaluate_response (JDict d) =
     (if (case map_of d ''errors'' of None \<Rightarrow> False | Some v \<Rightarrow> truthy v)
      then evaluate_errors (JDict d)
      else (case map_of d ''result'' of
              None \<Rightarrow> Inl (PyVLXException (NoElementResult (JDict d)))
            | Some r \<Rightarrow> if truthy r then Inr ()
                        else Inl (PyVLXException (RequestFailed (JDict d)))))"
  by (simp add: evaluate_response_def split: option.splits)

text \<open>
  C5, as the code has it. \<open>evaluate_errors\<close> fails with "Could not evaluate errors"
  exactly when the \<open>errors\<close> field is absent, is not a list, is empty, or begins with a value
  that is not an \<^verbatim>\<open>int\<close> instance (an integer or a boolean). Only the first element is
  tested: the elements after it are never looked at.
\<close>

theorem evaluate_errors_shape:
  "evaluate_errors (JDict d) = Inl (PyVLXException (CouldNotEvaluateErrors (JDict d)))
   \<longleftrightarrow> \<not> (\<exists>x rest. map_of d ''errors'' = Some (JList (x # rest)) \<and> int_value x \<noteq> None)"
  by (auto simp: evaluate_errors_dict split: option.splits json.splits list.splits)

theorem evaluate_errors_shape_witness:
  "evaluate_errors (JDict [(''errors'', JList [JString ''x'', JInt 403])])
     = Inl (PyVLXException
             (CouldNotEvaluateErrors (JDict [(''errors'', JList [JString ''x'', JInt 403])])))
   \<and> evaluate_errors (JDict [(''errors'', JInt 403)])
     = Inl (PyVLXException (CouldNotEvaluateErrors (JDict [(''errors'', JInt 403)])))
   \<and> evaluate_errors (JDict [(''errors'', JList [JInt 7, JString ''x''])])
     \<noteq> Inl (PyVLXException
             (CouldNotEvaluateErrors (JDict [(''errors'', JList [JInt 7, JString ''x''])])))"
  using evaluate_errors_shape [of "[(''errors'', JList [JString ''x'', JInt 403])]"]
        evaluate_errors_shape [of "[(''errors'', JInt 403)]"]
        evaluate_errors_shape [of "[(''errors'', JList [JInt 7, JString ''x''])]"]
  by simp

text \<open>
  C5, as the specification has it, fails: a list whose first element is 403 and whose
  second element is a string is not a list of integers, and it is classified as an invalid
  token.
\<close>

theorem evaluate_errors_later_element_unchecked:
  "evaluate_errors (JDict [(''errors'', JList [JInt 403, JString ''x''])])
     = Inl (InvalidToken 403)"
  by (simp add: evaluate_errors_dict)

text \<open>
  C6. When the \<open>errors\<close> field is a list that begins with the integer \<open>c\<close>, whatever
  follows it, \<open>evaluate_errors\<close> fails with the invalid-token kind carrying \<open>c\<close> if \<open>c\<close> is
  402, 403, 405 or 406, and with "Unknown error code" carrying \<open>c\<close> otherwise.
\<close>

theorem evaluate_errors_first_code:
  "map_of d ''errors'' = Some (JList (JInt c # rest)) \<Longrightarrow>
   evaluate_errors (JDict d) =
     Inl (if c \<in> {402, 403, 405, 406} then InvalidToken c
          else PyVLXException (UnknownErrorCode (JInt c)))"
  by (simp add: evaluate_errors_dict)

theorem evaluate_errors_first_code_witness:
  "evaluate_errors (JDict [(''errors'', JList [JInt 403, JInt 999])]) = Inl (InvalidToken 403)
   \<and> evaluate_errors (JDict [(''errors'', JList [JInt 999, JInt 403])])
       = Inl (PyVLXException (UnknownErrorCode (JInt 999)))"
  using evaluate_errors_first_code [of "[(''errors'', JList [JInt 403, JInt 999])]" 403 "[JInt 999]"]
        evaluate_errors_first_code [of "[(''errors'', JList [JInt 999, JInt 403])]" 999 "[JInt 403]"]
  by simp

text \<open>
  C7. On an envelope without \<open>errors\<close> whose \<open>result\<close> is \<^verbatim>\<open>true\<close>, \<open>evaluate_response\<close>
  returns without an error. On an envelope with neither field it fails with "no element
  result found". On an envelope whose \<open>errors\<close> is absent or the empty list and whose
  \<open>result\<close> is present and falsy it fails with "Request failed", carrying the envelope.
\<close>

theorem evaluate_response_cases:
  "(map_of d ''errors'' = None \<and> map_of d ''result'' = Some (JBool True)
      \<longrightarrow> evaluate_response (JDict d) = Inr ())
   \<and> (map_of d ''errors'' = None \<and> map_of d ''result'' = None
      \<longrightarrow> evaluate_response (JDict d) = Inl (PyVLXException (NoElementResult (JDict d))))
   \<and> ((map_of d ''errors'' = None \<or> map_of d ''errors'' = Some (JList []))
       \<and> map_of d ''result'' = Some r \<and> \<not> truthy r
      \<longrightarrow> evaluate_response (JDict d) = Inl (PyVLXException (RequestFailed (JDict d))))"
  by (auto simp: evaluate_response_dict)

theorem evaluate_response_cases_witness:
  "evaluate_response (JDict [(''result'', JBool True)]) = Inr ()
   \<and> evaluate_response (JDict []) = Inl (PyVLXException (NoElementResult (JDict [])))
   \<and> evaluate_response (JDict [(''errors'', JList []), (''result'', JInt 0)])
      = Inl (PyVLXException (RequestFailed (JDict [(''errors'', JList []), (''result'', JInt 0)])))
   \<and> evaluate_response (JDict [(''result'', JBool False)])
      = Inl (PyVLXException (RequestFailed (JDict [(''result'', JBool False)])))"
  using evaluate_response_cases [of "[(''result'', JBool True)]" "JBool True"]
        evaluate_response_cases [of "[]" JNull]
        evaluate_response_cases [of "[(''errors'', JList []), (''result'', JInt 0)]" "JInt 0"]
        evaluate_response_cases [of "[(''result'', JBool False)]" "JBool False"]
  by simp

section \<open>One exchange, and the calls unfolded\<close>

lemma do_http_request_state:
  "snd (do_http_request e u b h s) = s\<lparr>sent := sent s @ [\<lparr>url = u, data = b, headers = h\<rparr>]\<rparr>"
  by (simp add: do_http_request_def do_http_request_impl_def Let_def
           split: reply.splits sum.splits exn.splits)

lemma do_http_request_parse_failed:
  "parse_failed e (sent s) \<lparr>url = u, data = b, headers = h\<rparr> err \<Longrightarrow>
   fst (do_http_request e u b h s) = Inl (DecoderError err)"
  by (simp add: do_http_request_def do_http_request_impl_def Let_def parse_failed_def
           split: reply.splits sum.splits exn.splits)



lemma do_http_request_effect:
  "do_http_request e u b h s = (r, s') \<Longrightarrow>
   sent s' = sent s @ [\<lparr>url = u, data = b, headers = h\<rparr>] \<and> token s' = token s \<and>
   (\<forall>err. parse_failed e (sent s) \<lparr>url = u, data = b, headers = h\<rparr> err
            \<longrightarrow> r = Inl (DecoderError err))"
  using do_http_request_state [of e u b h s] do_http_request_parse_failed [of e s u b h]
  by auto

lemma do_http_request_cases:
  assumes "do_http_request e u b h s = (r, s')"
  shows "(\<exists>x. server e (sent s) \<lparr>url = u, data = b, headers = h\<rparr> = Raises x
              \<and> r = Inl (case x of AsyncioTimeoutError \<Rightarrow> PyVLXException RequestTimeout
                          | AiohttpClientError \<Rightarrow> PyVLXException HTTPError
                          | OSError \<Rightarrow> PyVLXException OSErrorTalking
                          | _ \<Rightarrow> x))
       \<or> (\<exists>t. server e (sent s) \<lparr>url = u, data = b, headers = h\<rparr> = Text t
              \<and> r = (case loads e (fix_response t) of
                        Inl err \<Rightarrow> Inl (DecoderError err)
                      | Inr j \<Rightarrow> Inr j))"
  using assms
  by (auto simp: do_http_request_def do_http_request_impl_def Let_def
           split: reply.splits sum.splits exn.splits)

lemma do_http_request_returned:
  assumes "do_http_request e u b h s = (Inr j, s')"
  shows "\<exists>t. server e (sent s) \<lparr>url = u, data = b, headers = h\<rparr> = Text t
             \<and> loads e (fix_response t) = Inr j"
proof (cases "server e (sent s) \<lparr>url = u, data = b, headers = h\<rparr>")
  case (Raises x)
  with assms show ?thesis
    by (cases x) (simp_all add: do_http_request_def do_http_request_impl_def Let_def)
next
  case (Text t)
  with assms show ?thesis
    by (cases "loads e (fix_response t)")
       (simp_all add: do_http_request_def do_http_request_impl_def Let_def)
qed

lemma api_call_no_auth:
  "api_call e verb action params False retry s = api_call_impl e verb action params False s"
  by (subst api_call.simps) (simp split: prod.splits sum.splits)

lemma api_call_impl_no_auth:
  "api_call_impl e verb action params False s =
     do_http_request e (create_api_url (host (config e)) verb) (create_body action params)
       [(''Content-Type'', ''application/json'')] s"
  by (simp add: api_call_impl_def create_headers_def)

lemma api_call_impl_auth:
  "api_call_impl e verb action params True s =
     (case token s of
        JString t \<Rightarrow>
          do_http_request e (create_api_url (host (config e)) verb) (create_body action params)
            [(''Content-Type'', ''application/json''), (''Authorization'', ''Bearer '' @ t)] s
      | _ \<Rightarrow> (Inl (TypeError (CannotConcatenate (token s))), s))"
  by (simp add: api_call_impl_def create_headers_def split: json.splits)

lemma api_call_is_retry:
  "api_call e verb action params True True s =
     (case (if \<not> truthy (token s) then refresh_token e s else (Inr (), s)) of
        (Inl x, s1) \<Rightarrow> (Inl x, s1)
      | (Inr u, s1) \<Rightarrow> api_call_impl e verb action params True s1)"
  by (subst api_call.simps) (simp split: prod.splits sum.splits)

lemma api_call_first:
  "api_call e verb action params True False s =
     (case (if \<not> truthy (token s) then refresh_token e s else (Inr (), s)) of
        (Inl x, s1) \<Rightarrow> (Inl x, s1)
      | (Inr u, s1) \<Rightarrow>
          (case api_call_impl e verb action params True s1 of
             (Inr j, s2) \<Rightarrow> (Inr j, s2)
           | (Inl x, s2) \<Rightarrow>
               if is_invalid_token x then
                 (case refresh_token e s2 of
                    (Inl y, s3) \<Rightarrow> (Inl y, s3)
                  | (Inr u', s3) \<Rightarrow> api_call e verb action params True True s3)
               else (Inl x, s2)))"
  by (subst api_call.simps) (simp split: prod.splits sum.splits)

lemma refresh_token_unfold:
  "refresh_token e s =
     (case do_http_request e (create_api_url (host (config e)) ''auth'')
             (create_body ''login'' (JDict [(''password'', JString (password (config e)))]))
             [(''Content-Type'', ''application/json'')] s of
        (Inl x, s1) \<Rightarrow> (Inl x, s1)
      | (Inr json_response, s1) \<Rightarrow>
          (case py_in ''token'' json_response of
             Inl x \<Rightarrow> (Inl x, s1)
           | Inr False \<Rightarrow> (Inl (PyVLXException (NoElementToken json_response)), s1)
           | Inr True \<Rightarrow>
               (case py_getitem json_response ''token'' of
                  Inl x \<Rightarrow> (Inl x, s1)
                | Inr t \<Rightarrow> (Inr (), s1\<lparr>token := t\<rparr>))))"
  by (subst refresh_token.simps) (simp add: api_call_no_auth api_call_impl_no_auth)

lemma api_call_no_auth_token:
  "api_call e verb action params False retry s = (r, s1) \<Longrightarrow> token s1 = token s"
  using do_http_request_state [of e "create_api_url (host (config e)) verb" "create_body action params" "[(''Content-Type'', ''application/json'')]" s]
  by (simp add: api_call_no_auth api_call_impl_no_auth)

lemma refresh_token_effect:
  "refresh_token e s = (r, s') \<Longrightarrow>
   sent s' = sent s @ [login_request e] \<and>
   (\<forall>err. parse_failed e (sent s) (login_request e) err \<longrightarrow> r = Inl (DecoderError err))"
  unfolding refresh_token_unfold login_request_def
  by (auto split: prod.splits sum.splits bool.splits dest!: do_http_request_effect)

lemma refresh_token_unauthorised: "\<not> authorised (login_request e)"
  by (simp add: authorised_def login_request_def)

lemma api_call_impl_effect:
  "api_call_impl e verb action params auth s = (r, s') \<Longrightarrow>
   token s' = token s \<and>
   (s' = s \<and> (\<exists>x. r = Inl (TypeError x))
    \<or> (\<exists>rq. sent s' = sent s @ [rq] \<and> authorised rq = auth
           \<and> (\<forall>err. parse_failed e (sent s) rq err \<longrightarrow> r = Inl (DecoderError err))))"
  by (cases auth)
     (auto simp: api_call_impl_auth api_call_impl_no_auth authorised_def
           split: json.splits dest!: do_http_request_effect)

lemma api_call_impl_request:
  "api_call_impl e verb action params auth s = (r, s') \<Longrightarrow>
   s' = s \<or> (\<exists>rq. sent s' = sent s @ [rq] \<and> authorised rq = auth
                \<and> url rq = create_api_url (host (config e)) verb
                \<and> data rq = create_body action params)"
  by (cases auth)
     (auto simp: api_call_impl_auth api_call_impl_no_auth authorised_def
           split: json.splits dest!: do_http_request_effect)



text \<open>The facts that evaluate a call against an example gateway.\<close>

lemmas demo_simps = api_call_no_auth api_call_impl_no_auth api_call_impl_auth api_call_first
  api_call_is_retry refresh_token_unfold do_http_request_def do_http_request_impl_def
  demo_env_def demo_loads_def fix_response_def authorised_def create_api_url_def
  create_body_def login_request_def parse_failed_def Let_def is_invalid_token_def

section \<open>The retry on an invalid token\<close>

text \<open>
  C1. The call holds the token \<^verbatim>\<open>t1\<close>; the gateway answers the first request that carries
  a token with \<^verbatim>\<open>{"errors":[403]}\<close> and would answer the next one with
  \<^verbatim>\<open>{"result":true}\<close>. \<open>api_call\<close> returns the first envelope as its result, after that one
  exchange: no login, no second request, and the token is still \<^verbatim>\<open>t1\<close>. Nothing on
  the path of \<open>api_call\<close> evaluates the envelope, so the handler of the invalid-token kind
  is not entered by an error envelope.
\<close>

theorem api_call_returns_403_envelope:
  "api_call (demo_env (Text ''{\"token\":\"t2\"}'') (Text ''{\"errors\":[403]}'') (Text ''{\"result\":true}''))
      ''devices'' ''get'' JNull True False \<lparr>token = JString ''t1'', sent = []\<rparr>
   = (Inr (JDict [(''errors'', JList [JInt 403])]),
      \<lparr>token = JString ''t1'',
       sent = [\<lparr>url = ''http://klf/api/v1/devices'',
                data = JDict [(''action'', JString ''get'')],
                headers = [(''Content-Type'', ''application/json''),
                           (''Authorization'', ''Bearer t1'')]\<rparr>]\<rparr>)"
  by (simp add: demo_simps)

lemma exchanges_refl: "exchanges e u body auth s s n l"
  by (simp add: exchanges_def)

lemma exchanges_seq:
  assumes "exchanges e u body auth s s1 n1 l1" and "exchanges e u body auth s1 s2 n2 l2"
  shows "exchanges e u body auth s s2 (n1 + n2) (l1 + l2)"
proof -
  from assms(1) obtain new1 where 1: "sent s1 = sent s @ new1"
    "length (filter (\<lambda>rq. authorised rq = auth) new1) \<le> n1"
    "length (filter (\<lambda>rq. authorised rq \<noteq> auth) new1) \<le> l1"
    "\<forall>rq \<in> set new1. if authorised rq = auth then url rq = u \<and> data rq = body
                              else rq = login_request e"
    unfolding exchanges_def by blast
  from assms(2) obtain new2 where 2: "sent s2 = sent s1 @ new2"
    "length (filter (\<lambda>rq. authorised rq = auth) new2) \<le> n2"
    "length (filter (\<lambda>rq. authorised rq \<noteq> auth) new2) \<le> l2"
    "\<forall>rq \<in> set new2. if authorised rq = auth then url rq = u \<and> data rq = body
                              else rq = login_request e"
    unfolding exchanges_def by blast
  show ?thesis
    unfolding exchanges_def
  proof (intro exI [of _ "new1 @ new2"] conjI)
    show "sent s2 = sent s @ new1 @ new2" using 1(1) 2(1) by simp
    show "length (filter (\<lambda>rq. authorised rq = auth) (new1 @ new2)) \<le> n1 + n2"
      using 1(2) 2(2) by simp
    show "length (filter (\<lambda>rq. authorised rq \<noteq> auth) (new1 @ new2)) \<le> l1 + l2"
      using 1(3) 2(3) by simp
    show "\<forall>rq \<in> set (new1 @ new2). if authorised rq = auth then url rq = u \<and> data rq = body
                              else rq = login_request e"
      using 1(4) 2(4) by auto
  qed
qed

lemma exchanges_mono:
  "exchanges e u body auth s s' n l \<Longrightarrow> n \<le> n' \<Longrightarrow> l \<le> l' \<Longrightarrow> exchanges e u body auth s s' n' l'"
  unfolding exchanges_def by (meson le_trans)

lemma exchanges_then:
  assumes "exchanges e u body auth s s1 n1 l1" and "exchanges e u body auth s1 s2 n2 l2"
    and "n1 + n2 \<le> n" and "l1 + l2 \<le> l"
  shows "exchanges e u body auth s s2 n l"
  using exchanges_mono [OF exchanges_seq [OF assms(1,2)] assms(3,4)] .

lemma exchanges_refresh_token:
  assumes "refresh_token e s = (r, s')" and "1 \<le> l"
  shows "exchanges e u body True s s' n l"
proof -
  from refresh_token_effect [OF assms(1)] have "sent s' = sent s @ [login_request e]" by simp
  with assms(2) show ?thesis
    unfolding exchanges_def
    by (intro exI [of _ "[login_request e]"]) (simp add: refresh_token_unauthorised)
qed

lemma exchanges_api_call_impl:
  assumes "api_call_impl e verb action params auth s = (r, s')" and "1 \<le> n"
  shows "exchanges e (create_api_url (host (config e)) verb) (create_body action params) auth s s' n l"
proof -
  from api_call_impl_request [OF assms(1)]
  show ?thesis
  proof
    assume "s' = s" then show ?thesis by (simp add: exchanges_refl)
  next
    assume "\<exists>rq. sent s' = sent s @ [rq] \<and> authorised rq = auth
                \<and> url rq = create_api_url (host (config e)) verb
                \<and> data rq = create_body action params"
    then obtain rq where "sent s' = sent s @ [rq]" "authorised rq = auth"
       "url rq = create_api_url (host (config e)) verb" "data rq = create_body action params"
      by blast
    with assms(2) show ?thesis unfolding exchanges_def by (intro exI [of _ "[rq]"]) simp
  qed
qed

lemma exchanges_token_step:
  assumes "(if c then refresh_token e s else (Inr (), s)) = (r, s')" and "1 \<le> l"
  shows "exchanges e u body True s s' n l"
proof (cases c)
  case True
  with assms show ?thesis by (simp add: exchanges_refresh_token)
next
  case False
  with assms show ?thesis by (simp add: exchanges_refl)
qed

lemma exchanges_api_call_retry:
  assumes call: "api_call e verb action params True True s = (r, s')"
    and "1 \<le> n" and "1 \<le> l"
  shows "exchanges e (create_api_url (host (config e)) verb) (create_body action params) True s s' n l"
    (is "exchanges e ?u ?b True s s' n l")
proof -
  obtain r1 s1 where pre: "(if \<not> truthy (token s) then refresh_token e s else (Inr (), s)) = (r1, s1)"
    by fastforce
  show ?thesis
  proof (cases r1)
    case (Inl x)
    with call pre have "s' = s1" by (simp add: api_call_is_retry)
    with pre assms(3) show ?thesis by (simp add: exchanges_token_step)
  next
    case (Inr u)
    with call pre have impl: "api_call_impl e verb action params True s1 = (r, s')"
      by (simp add: api_call_is_retry)
    have "exchanges e ?u ?b True s s1 0 1" using pre by (rule exchanges_token_step) simp
    moreover have "exchanges e ?u ?b True s1 s' 1 0" using impl by (rule exchanges_api_call_impl) simp
    ultimately show ?thesis by (rule exchanges_then) (use assms(2,3) in simp_all)
  qed
qed

lemma exchanges_api_call_first:
  assumes call: "api_call e verb action params True False s = (r, s')"
  shows "exchanges e (create_api_url (host (config e)) verb) (create_body action params) True s s' 2 3"
    (is "exchanges e ?u ?b True s s' 2 3")
proof -
  obtain r1 s1 where pre: "(if \<not> truthy (token s) then refresh_token e s else (Inr (), s)) = (r1, s1)"
    by fastforce
  then have ok1: "exchanges e ?u ?b True s s1 0 1" by (rule exchanges_token_step) simp
  show ?thesis
  proof (cases r1)
    case (Inl x)
    with call pre have "s' = s1" by (simp add: api_call_first)
    with ok1 show ?thesis by (auto intro: exchanges_mono)
  next
    case u: (Inr u)
    obtain r2 s2 where impl: "api_call_impl e verb action params True s1 = (r2, s2)"
      by fastforce
    then have "exchanges e ?u ?b True s1 s2 1 0" by (rule exchanges_api_call_impl) simp
    with ok1 have ok2: "exchanges e ?u ?b True s s2 1 1" by (rule exchanges_then) simp_all
    show ?thesis
    proof (cases r2)
      case (Inr j)
      with call pre u impl have "s' = s2" by (simp add: api_call_first)
      with ok2 show ?thesis by (auto intro: exchanges_mono)
    next
      case x: (Inl x)
      show ?thesis
      proof (cases "is_invalid_token x")
        case False
        with call pre u impl x have "s' = s2" by (simp add: api_call_first)
        with ok2 show ?thesis by (auto intro: exchanges_mono)
      next
        case True
        obtain r3 s3 where again: "refresh_token e s2 = (r3, s3)" by fastforce
        then have "exchanges e ?u ?b True s2 s3 0 1" by (rule exchanges_refresh_token) simp
        with ok2 have ok3: "exchanges e ?u ?b True s s3 1 2" by (rule exchanges_then) simp_all
        show ?thesis
        proof (cases r3)
          case (Inl y)
          with call pre u impl x True again have "s' = s3" by (simp add: api_call_first)
          with ok3 show ?thesis by (auto intro: exchanges_mono)
        next
          case (Inr u')
          with call pre u impl x True again
          have "api_call e verb action params True True s3 = (r, s')"
            by (simp add: api_call_first)
          then have "exchanges e ?u ?b True s3 s' 1 1" by (rule exchanges_api_call_retry) simp_all
          with ok3 show ?thesis by (rule exchanges_then) simp_all
        qed
      qed
    qed
  qed
qed

lemma exchanges_api_call:
  assumes "api_call e verb action params auth retry s = (r, s')"
  shows "exchanges e (create_api_url (host (config e)) verb) (create_body action params) auth s s'
           (if auth \<and> \<not> retry then 2 else 1) (if auth then if retry then 1 else 3 else 0)"
proof (cases auth)
  case False
  with assms have "api_call_impl e verb action params False s = (r, s')"
    by (simp add: api_call_no_auth)
  then have "exchanges e (create_api_url (host (config e)) verb) (create_body action params) False s s' 1 0"
    by (rule exchanges_api_call_impl) simp
  with False show ?thesis by simp
next
  case True
  show ?thesis
  proof (cases retry)
    case True
    with assms \<open>auth\<close> have "api_call e verb action params True True s = (r, s')" by simp
    then have "exchanges e (create_api_url (host (config e)) verb) (create_body action params) True s s' 1 1"
      by (rule exchanges_api_call_retry) simp_all
    with True \<open>auth\<close> show ?thesis by simp
  next
    case False
    with assms \<open>auth\<close> have "api_call e verb action params True False s = (r, s')" by simp
    from exchanges_api_call_first [OF this] False \<open>auth\<close> show ?thesis by simp
  qed
qed


text \<open>
  \<open>api_call\<close> is a total function: its recursion through \<open>refresh_token\<close> and through
  the retry was shown to terminate where it is defined. Whatever the gateway does, a call
  adds at most two requests of its own (one when it is a retry or needs no token) and, when
  it needs a token, at most three login requests (one when it is a retry).
\<close>

lemma api_call_exchange_bound:
  assumes call: "api_call e verb action params auth retry s = (r, s')"
  shows "\<exists>new. sent s' = sent s @ new
            \<and> length (filter (\<lambda>rq. authorised rq = auth) new) \<le> (if auth \<and> \<not> retry then 2 else 1)
            \<and> length (filter (\<lambda>rq. authorised rq \<noteq> auth) new)
                \<le> (if auth then if retry then 1 else 3 else 0)
            \<and> (\<forall>rq \<in> set new.
                  if authorised rq = auth
                  then url rq = create_api_url (host (config e)) verb
                       \<and> data rq = create_body action params
                  else rq = login_request e)"
  using exchanges_api_call [OF call] unfolding exchanges_def .

text \<open>
  C2. The gateway answers every request with \<^verbatim>\<open>{"errors":[403]}\<close>, the invalid-token
  code. A call that is already a retry, a call that needs no token and a first call each
  return that envelope as their result after one exchange: no invalid-token failure reaches
  the caller, and the first call makes no second attempt. The bound of the claim holds, its
  failure does not arise: the envelope is never evaluated on the path of \<open>api_call\<close>.
\<close>

theorem api_call_403_never_raised:
  "api_call (demo_env (Text ''{\"token\":\"t2\"}'') (Text ''{\"errors\":[403]}'') (Text ''{\"errors\":[403]}''))
      ''devices'' ''get'' JNull True True \<lparr>token = JString ''t1'', sent = []\<rparr>
   = (Inr (JDict [(''errors'', JList [JInt 403])]),
      \<lparr>token = JString ''t1'',
       sent = [\<lparr>url = ''http://klf/api/v1/devices'',
                data = JDict [(''action'', JString ''get'')],
                headers = [(''Content-Type'', ''application/json''),
                           (''Authorization'', ''Bearer t1'')]\<rparr>]\<rparr>)
   \<and> api_call (demo_env (Text ''{\"errors\":[403]}'') (Text ''{\"errors\":[403]}'') (Text ''{\"errors\":[403]}''))
      ''scenes'' ''get'' JNull False False \<lparr>token = JNull, sent = []\<rparr>
   = (Inr (JDict [(''errors'', JList [JInt 403])]),
      \<lparr>token = JNull,
       sent = [\<lparr>url = ''http://klf/api/v1/scenes'',
                data = JDict [(''action'', JString ''get'')],
                headers = [(''Content-Type'', ''application/json'')]\<rparr>]\<rparr>)
   \<and> api_call (demo_env (Text ''{\"token\":\"t2\"}'') (Text ''{\"errors\":[403]}'') (Text ''{\"errors\":[403]}''))
      ''devices'' ''get'' JNull True False \<lparr>token = JString ''t1'', sent = []\<rparr>
   = (Inr (JDict [(''errors'', JList [JInt 403])]),
      \<lparr>token = JString ''t1'',
       sent = [\<lparr>url = ''http://klf/api/v1/devices'',
                data = JDict [(''action'', JString ''get'')],
                headers = [(''Content-Type'', ''application/json''),
                           (''Authorization'', ''Bearer t1'')]\<rparr>]\<rparr>)"
  by (simp add: demo_simps)

section \<open>Disconnecting\<close>




section \<open>A response that does not parse\<close>

lemma append_eq_mid:
  "xs @ ys = pre @ rq # post \<Longrightarrow>
   (\<exists>post1. xs = pre @ rq # post1 \<and> post = post1 @ ys)
   \<or> (\<exists>pre2. pre = xs @ pre2 \<and> ys = pre2 @ rq # post)"
proof (induction xs arbitrary: pre)
  case Nil
  then show ?case by simp
next
  case (Cons x xs)
  show ?case
  proof (cases pre)
    case Nil
    with Cons.prems show ?thesis by simp
  next
    case (Cons p pre')
    with Cons.prems have "xs @ ys = pre' @ rq # post" and "x = p" by simp_all
    with Cons.IH [of pre'] Cons show ?thesis by auto
  qed
qed

lemma surfaces_refl: "surfaces e s r s"
  by (simp add: surfaces_def)

lemma surfaces_one:
  assumes "sent s' = sent s @ [rq0]"
    and "\<And>err. parse_failed e (sent s) rq0 err \<Longrightarrow> r = Inl (DecoderError err)"
  shows "surfaces e s r s'"
  unfolding surfaces_def
proof (intro exI [of _ "[rq0]"] conjI allI impI)
  show "sent s' = sent s @ [rq0]" by (rule assms(1))
next
  fix pre rq post err
  assume a: "[rq0] = pre @ rq # post \<and> parse_failed e (sent s @ pre) rq err"
  then have "pre = []" "rq = rq0" "post = []"
    by (simp_all add: Cons_eq_append_conv)
  with a assms(2) show "post = []" "r = Inl (DecoderError err)" by simp_all
qed

lemma surfaces_result:
  assumes "surfaces e s r s'"
    and "\<And>err. r = Inl (DecoderError err) \<Longrightarrow> r' = Inl (DecoderError err)"
  shows "surfaces e s r' s'"
  using assms unfolding surfaces_def by blast

lemma surfaces_seq:
  assumes first: "surfaces e s r1 s1" and went_on: "\<And>err. r1 \<noteq> Inl (DecoderError err)"
    and second: "surfaces e s1 r s2"
  shows "surfaces e s r s2"
proof -
  from first obtain new1 where n1: "sent s1 = sent s @ new1"
    and p1: "new1 = pre @ rq # post \<Longrightarrow> parse_failed e (sent s @ pre) rq err
             \<Longrightarrow> r1 = Inl (DecoderError err)"
    for pre rq post err
    unfolding surfaces_def by blast
  from second obtain new2 where n2: "sent s2 = sent s1 @ new2"
    and p2: "new2 = pre @ rq # post \<Longrightarrow> parse_failed e (sent s1 @ pre) rq err
             \<Longrightarrow> post = [] \<and> r = Inl (DecoderError err)"
    for pre rq post err
    unfolding surfaces_def by blast
  have "sent s2 = sent s @ (new1 @ new2)" using n1 n2 by simp
  moreover have "post = [] \<and> r = Inl (DecoderError err)"
    if split: "new1 @ new2 = pre @ rq # post" and failed: "parse_failed e (sent s @ pre) rq err"
    for pre rq post err
    using append_eq_mid [OF split]
  proof (elim disjE exE conjE)
    fix post1
    assume "new1 = pre @ rq # post1"
    from p1 [OF this failed] went_on show ?thesis by blast
  next
    fix pre2
    assume pre: "pre = new1 @ pre2" and "new2 = pre2 @ rq # post"
    moreover from failed pre n1 have "parse_failed e (sent s1 @ pre2) rq err" by simp
    ultimately show ?thesis using p2 by blast
  qed
  ultimately show ?thesis unfolding surfaces_def by blast
qed

lemma surfaces_refresh_token: "refresh_token e s = (r, s') \<Longrightarrow> surfaces e s r s'"
  by (drule refresh_token_effect) (auto intro: surfaces_one)

lemma surfaces_api_call_impl:
  "api_call_impl e verb action params auth s = (r, s') \<Longrightarrow> surfaces e s r s'"
  by (drule api_call_impl_effect) (auto intro: surfaces_one surfaces_refl)

lemma surfaces_token_step:
  "(if c then refresh_token e s else (Inr (), s)) = (r, s') \<Longrightarrow> surfaces e s r s'"
  by (auto split: if_splits intro: surfaces_refresh_token surfaces_refl)

lemma surfaces_api_call_retry:
  assumes call: "api_call e verb action params True True s = (r, s')"
  shows "surfaces e s r s'"
proof -
  obtain r1 s1 where pre: "(if \<not> truthy (token s) then refresh_token e s else (Inr (), s)) = (r1, s1)"
    by fastforce
  then have ok1: "surfaces e s r1 s1" by (rule surfaces_token_step)
  show ?thesis
  proof (cases r1)
    case (Inl x)
    with call pre have "r = Inl x" "s' = s1" by (simp_all add: api_call_is_retry)
    with ok1 Inl show ?thesis by (auto intro: surfaces_result)
  next
    case (Inr u)
    with call pre have "api_call_impl e verb action params True s1 = (r, s')"
      by (simp add: api_call_is_retry)
    then have "surfaces e s1 r s'" by (rule surfaces_api_call_impl)
    with ok1 Inr show ?thesis by (auto intro: surfaces_seq)
  qed
qed

lemma not_invalid_token_decode:
  "is_invalid_token x \<Longrightarrow> (Inl x :: exn + 'a) \<noteq> Inl (DecoderError err)"
  by (auto simp: is_invalid_token_def)

lemma surfaces_api_call_first:
  assumes call: "api_call e verb action params True False s = (r, s')"
  shows "surfaces e s r s'"
proof -
  obtain r1 s1 where pre: "(if \<not> truthy (token s) then refresh_token e s else (Inr (), s)) = (r1, s1)"
    by fastforce
  then have ok1: "surfaces e s r1 s1" by (rule surfaces_token_step)
  show ?thesis
  proof (cases r1)
    case (Inl x)
    with call pre have "r = Inl x" "s' = s1" by (simp_all add: api_call_first)
    with ok1 Inl show ?thesis by (auto intro: surfaces_result)
  next
    case u: (Inr u)
    obtain r2 s2 where impl: "api_call_impl e verb action params True s1 = (r2, s2)"
      by fastforce
    then have "surfaces e s1 r2 s2" by (rule surfaces_api_call_impl)
    with ok1 u have ok2: "surfaces e s r2 s2" by (auto intro: surfaces_seq)
    show ?thesis
    proof (cases r2)
      case (Inr j)
      with call pre u impl have "r = r2" "s' = s2" by (simp_all add: api_call_first)
      with ok2 show ?thesis by simp
    next
      case x: (Inl x)
      show ?thesis
      proof (cases "is_invalid_token x")
        case False
        with call pre u impl x have "r = r2" "s' = s2" by (simp_all add: api_call_first)
        with ok2 show ?thesis by simp
      next
        case True
        obtain r3 s3 where again: "refresh_token e s2 = (r3, s3)" by fastforce
        then have "surfaces e s2 r3 s3" by (rule surfaces_refresh_token)
        with ok2 x True have ok3: "surfaces e s r3 s3"
          by (auto intro: surfaces_seq dest: not_invalid_token_decode)
        show ?thesis
        proof (cases r3)
          case (Inl y)
          with call pre u impl x True again have "r = Inl y" "s' = s3"
            by (simp_all add: api_call_first)
          with ok3 Inl show ?thesis by (auto intro: surfaces_result)
        next
          case (Inr u')
          with call pre u impl x True again
          have "api_call e verb action params True True s3 = (r, s')"
            by (simp add: api_call_first)
          then have "surfaces e s3 r s'" by (rule surfaces_api_call_retry)
          with ok3 Inr show ?thesis by (auto intro: surfaces_seq)
        qed
      qed
    qed
  qed
qed

lemma surfaces_api_call:
  "api_call e verb action params auth retry s = (r, s') \<Longrightarrow> surfaces e s r s'"
  by (cases auth; cases retry)
     (auto simp: api_call_no_auth
           intro: surfaces_api_call_first surfaces_api_call_retry surfaces_api_call_impl)


text \<open>
  C4, as the code has it. Whichever exchange of a call is answered with a text whose
  repaired form \<^verbatim>\<open>json.loads\<close> rejects, be it a login, the first attempt or the retry, that
  exchange is the last of the call, and \<open>api_call\<close> raises the exception \<^verbatim>\<open>json.loads\<close>
  raised, as it is. It is not a \<^verbatim>\<open>PyVLXException\<close>: it differs from the transport
  failures, which are, and it is not one of the library's typed failures.
\<close>

theorem api_call_parse_failure_is_raw:
  assumes "api_call e verb action params auth retry s = (r, s')"
  shows "\<exists>new. sent s' = sent s @ new \<and>
           (\<forall>pre rq post err.
              new = pre @ rq # post \<and> parse_failed e (sent s @ pre) rq err
              \<longrightarrow> post = [] \<and> r = Inl (DecoderError err)
                  \<and> \<not> is_pyvlx_exception (DecoderError err))"
proof -
  from assms have "surfaces e s r s'" by (rule surfaces_api_call)
  then show ?thesis unfolding surfaces_def by simp
qed

theorem api_call_parse_failure_is_raw_witness:
  "parse_failed (demo_env (Text ''{\"token\":\"t2\"}'') (Text ''not json'') (Raises OSError))
     [login_request (demo_env (Text ''{\"token\":\"t2\"}'') (Text ''not json'') (Raises OSError))]
     \<lparr>url = ''http://klf/api/v1/devices'', data = JDict [(''action'', JString ''get'')],
      headers = [(''Content-Type'', ''application/json''), (''Authorization'', ''Bearer t2'')]\<rparr>
     JSONDecodeError
   \<and> api_call (demo_env (Text ''{\"token\":\"t2\"}'') (Text ''not json'') (Raises OSError))
        ''devices'' ''get'' JNull True False \<lparr>token = JNull, sent = []\<rparr>
     = (Inl (DecoderError JSONDecodeError),
        \<lparr>token = JString ''t2'',
         sent = [login_request (demo_env (Text ''{\"token\":\"t2\"}'') (Text ''not json'') (Raises OSError)),
                 \<lparr>url = ''http://klf/api/v1/devices'', data = JDict [(''action'', JString ''get'')],
                  headers = [(''Content-Type'', ''application/json''),
                             (''Authorization'', ''Bearer t2'')]\<rparr>]\<rparr>)"
proof -
  let ?e = "demo_env (Text ''{\"token\":\"t2\"}'') (Text ''not json'') (Raises OSError)"
  let ?rq = "\<lparr>url = ''http://klf/api/v1/devices'', data = JDict [(''action'', JString ''get'')],
          headers = [(''Content-Type'', ''application/json''), (''Authorization'', ''Bearer t2'')]\<rparr>"
  let ?s = "\<lparr>token = JNull, sent = []\<rparr>"
  let ?s' = "\<lparr>token = JString ''t2'', sent = [login_request ?e, ?rq]\<rparr>"
  have called: "api_call ?e ''devices'' ''get'' JNull True False ?s
                  = (Inl (DecoderError JSONDecodeError), ?s')"
    by (simp add: demo_simps)
  have failed: "parse_failed ?e (sent ?s @ [login_request ?e]) ?rq JSONDecodeError"
    by (simp add: demo_simps)
  from api_call_parse_failure_is_raw [OF called]
  obtain new where grown: "sent ?s' = sent ?s @ new"
    and last: "\<And>pre rq post err.
                 new = pre @ rq # post \<and> parse_failed ?e (sent ?s @ pre) rq err
                 \<Longrightarrow> post = [] \<and> (Inl (DecoderError JSONDecodeError) :: exn + json) = Inl (DecoderError err)"
    by blast
  from grown have "new = [login_request ?e] @ ?rq # []" by simp
  with failed last [of "[login_request ?e]" ?rq "[]" JSONDecodeError] called
  show ?thesis by simp
qed

text \<open>
  C4, as the specification has it, fails: the login call, answered with \<^verbatim>\<open>not json\<close>,
  raises an exception that is not a \<^verbatim>\<open>PyVLXException\<close>.
\<close>

theorem api_call_parse_failure_untyped:
  "fst (api_call (demo_env (Text ''not json'') (Raises OSError) (Raises OSError))
          ''auth'' ''login'' (JDict [(''password'', JString ''secret'')]) False False
          \<lparr>token = JNull, sent = []\<rparr>) = Inl (DecoderError JSONDecodeError)
   \<and> \<not> is_pyvlx_exception (DecoderError JSONDecodeError)"
  by (simp add: demo_simps)

section \<open>Refreshing the token\<close>

text \<open>
  C8. When the login call returns the object \<open>d\<close> in the state \<open>s1\<close>: if \<open>d\<close> has no
  \<open>token\<close> field, \<open>refresh_token\<close> fails with "no element token found", in \<open>s1\<close>, where the
  held token is the one held before; if \<open>d\<close> has the field, \<open>refresh_token\<close> returns and the
  field's value is the held token.
\<close>

theorem refresh_token_token_field:
  "api_call e ''auth'' ''login'' (JDict [(''password'', JString (password (config e)))])
     False False s = (Inr (JDict d), s1) \<Longrightarrow>
   (map_of d ''token'' = None \<longrightarrow>
      refresh_token e s = (Inl (PyVLXException (NoElementToken (JDict d))), s1)
      \<and> token s1 = token s)
   \<and> (\<forall>v. map_of d ''token'' = Some v \<longrightarrow> refresh_token e s = (Inr (), s1\<lparr>token := v\<rparr>))"
  by (subst (1 2) refresh_token.simps) (auto dest: api_call_no_auth_token)

theorem refresh_token_token_field_witness:
  "refresh_token (demo_env (Text ''{\"result\":true}'') (Raises OSError) (Raises OSError))
       \<lparr>token = JString ''t1'', sent = []\<rparr>
     = (Inl (PyVLXException (NoElementToken (JDict [(''result'', JBool True)]))),
        \<lparr>token = JString ''t1'',
         sent = [login_request (demo_env (Text ''{\"result\":true}'') (Raises OSError) (Raises OSError))]\<rparr>)
   \<and> refresh_token (demo_env (Text '')]}',{\"token\":\"t2\"}'') (Raises OSError) (Raises OSError))
       \<lparr>token = JString ''t1'', sent = []\<rparr>
     = (Inr (),
        \<lparr>token = JString ''t2'',
         sent = [login_request (demo_env (Text '')]}',{\"token\":\"t2\"}'') (Raises OSError) (Raises OSError))]\<rparr>)"
proof -
  let ?e1 = "demo_env (Text ''{\"result\":true}'') (Raises OSError) (Raises OSError)"
  let ?e2 = "demo_env (Text '')]}',{\"token\":\"t2\"}'') (Raises OSError) (Raises OSError)"
  let ?s = "\<lparr>token = JString ''t1'', sent = []\<rparr>"
  have h1: "api_call ?e1 ''auth'' ''login'' (JDict [(''password'', JString (password (config ?e1)))])
              False False ?s
            = (Inr (JDict [(''result'', JBool True)]), \<lparr>token = JString ''t1'', sent = [login_request ?e1]\<rparr>)"
    by (simp add: demo_simps)
  have h2: "api_call ?e2 ''auth'' ''login'' (JDict [(''password'', JString (password (config ?e2)))])
              False False ?s
            = (Inr (JDict [(''token'', JString ''t2'')]), \<lparr>token = JString ''t1'', sent = [login_request ?e2]\<rparr>)"
    by (simp add: demo_simps)
  from refresh_token_token_field [OF h1] refresh_token_token_field [OF h2] show ?thesis by simp
qed

section \<open>The token in the authorisation header\<close>

lemma no_concat_error_simps [simp]:
  "no_concat_error (Inr a)"
  "no_concat_error (Inl x) \<longleftrightarrow> (\<forall>v. x \<noteq> TypeError (CannotConcatenate v))"
  by (simp_all add: no_concat_error_def)

lemma gateway_raises:
  "well_typed_gateway e \<Longrightarrow> server e hist rq = Raises x \<Longrightarrow> x \<noteq> TypeError (CannotConcatenate v)"
  unfolding well_typed_gateway_def
  by (drule spec [of _ hist], drule spec [of _ rq]) simp

lemma gateway_login:
  "well_typed_gateway e \<Longrightarrow> server e hist (login_request e) = Text t \<Longrightarrow>
   loads e (fix_response t) = Inr (JDict d) \<Longrightarrow> map_of d ''token'' = Some v \<Longrightarrow>
   \<exists>str. v = JString str"
  unfolding well_typed_gateway_def
  by (drule spec [of _ hist], drule spec [of _ "login_request e"]) simp

lemma do_http_request_typed:
  assumes "well_typed_gateway e" and "do_http_request e u b h s = (r, s')"
  shows "no_concat_error r"
  using do_http_request_cases [OF assms(2)]
proof (elim disjE exE conjE)
  fix x
  assume "server e (sent s) \<lparr>url = u, data = b, headers = h\<rparr> = Raises x"
    and r: "r = Inl (case x of AsyncioTimeoutError \<Rightarrow> PyVLXException RequestTimeout
                          | AiohttpClientError \<Rightarrow> PyVLXException HTTPError
                          | OSError \<Rightarrow> PyVLXException OSErrorTalking
                          | _ \<Rightarrow> x)"
  with gateway_raises [OF assms(1)] have "\<forall>v. x \<noteq> TypeError (CannotConcatenate v)" by blast
  with r show ?thesis by (cases x) simp_all
next
  fix t
  assume "r = (case loads e (fix_response t) of
                 Inl err \<Rightarrow> Inl (DecoderError err)
               | Inr j \<Rightarrow> Inr j)"
  then show ?thesis by (simp split: sum.splits)
qed

lemma refresh_token_typed:
  assumes gw: "well_typed_gateway e" and call: "refresh_token e s = (r, s')"
  shows "no_concat_error r
         \<and> (case r of Inl x \<Rightarrow> token s' = token s | Inr u \<Rightarrow> (\<exists>str. token s' = JString str))"
proof -
  let ?u = "create_api_url (host (config e)) ''auth''"
  let ?b = "create_body ''login'' (JDict [(''password'', JString (password (config e)))])"
  let ?h = "[(''Content-Type'', ''application/json'')]"
  obtain r0 s1 where http: "do_http_request e ?u ?b ?h s = (r0, s1)" by fastforce
  from do_http_request_effect [OF http] have tok: "token s1 = token s" by simp
  from do_http_request_typed [OF gw http] have typed0: "no_concat_error r0" .
  show ?thesis
  proof (cases r0)
    case (Inl x)
    with call http have "r = Inl x" "s' = s1" by (simp_all add: refresh_token_unfold)
    with typed0 Inl tok show ?thesis by simp
  next
    case (Inr j)
    from do_http_request_returned [OF http [unfolded Inr]] obtain t
      where reply: "server e (sent s) (login_request e) = Text t"
        and parsed: "loads e (fix_response t) = Inr j"
      by (auto simp: login_request_def)
    show ?thesis
    proof (cases j)
      case (JDict d)
      show ?thesis
      proof (cases "map_of d ''token''")
        case None
        with call http Inr JDict tok show ?thesis
          by (auto simp: refresh_token_unfold)
      next
        case (Some v)
        from gateway_login [OF gw reply parsed [unfolded JDict] Some]
        obtain str where "v = JString str" by blast
        with call http Inr JDict Some show ?thesis
          by (auto simp: refresh_token_unfold)
      qed
    qed (use call http Inr tok in \<open>auto simp: refresh_token_unfold split: bool.splits\<close>)
  qed
qed

lemma api_call_impl_typed:
  assumes gw: "well_typed_gateway e" and str: "token s = JString t"
    and call: "api_call_impl e verb action params True s = (r, s')"
  shows "no_concat_error r \<and> token s' = token s"
  using call str do_http_request_typed [OF gw] 
  by (auto simp: api_call_impl_auth dest: do_http_request_effect)

lemma truthy_none_or_str: "none_or_str v \<Longrightarrow> truthy v \<Longrightarrow> \<exists>t. v = JString t"
  by (cases v) simp_all

lemma token_step_typed:
  assumes gw: "well_typed_gateway e" and inv: "none_or_str (token s)"
    and pre: "(if \<not> truthy (token s) then refresh_token e s else (Inr (), s)) = (r1, s1)"
  shows "no_concat_error r1
         \<and> (case r1 of Inl x \<Rightarrow> token s1 = token s | Inr u \<Rightarrow> (\<exists>str. token s1 = JString str))"
proof (cases "truthy (token s)")
  case True
  with pre inv show ?thesis by (auto dest: truthy_none_or_str)
next
  case False
  with pre have "refresh_token e s = (r1, s1)" by simp
  from refresh_token_typed [OF gw this] show ?thesis .
qed

lemma api_call_retry_typed:
  assumes gw: "well_typed_gateway e" and inv: "none_or_str (token s)"
    and call: "api_call e verb action params True True s = (r, s')"
  shows "no_concat_error r \<and> none_or_str (token s')"
proof -
  obtain r1 s1 where pre: "(if \<not> truthy (token s) then refresh_token e s else (Inr (), s)) = (r1, s1)"
    by fastforce
  note ok1 = token_step_typed [OF gw inv pre]
  show ?thesis
  proof (cases r1)
    case (Inl x)
    with call pre have "r = Inl x" "s' = s1" by (simp_all add: api_call_is_retry)
    with ok1 Inl inv show ?thesis by simp
  next
    case (Inr u)
    with ok1 obtain t where t: "token s1 = JString t" by auto
    from call pre Inr have "api_call_impl e verb action params True s1 = (r, s')"
      by (simp add: api_call_is_retry)
    from api_call_impl_typed [OF gw t this] t show ?thesis by simp
  qed
qed

lemma api_call_first_typed:
  assumes gw: "well_typed_gateway e" and inv: "none_or_str (token s)"
    and call: "api_call e verb action params True False s = (r, s')"
  shows "no_concat_error r \<and> none_or_str (token s')"
proof -
  obtain r1 s1 where pre: "(if \<not> truthy (token s) then refresh_token e s else (Inr (), s)) = (r1, s1)"
    by fastforce
  note ok1 = token_step_typed [OF gw inv pre]
  show ?thesis
  proof (cases r1)
    case (Inl x)
    with call pre have "r = Inl x" "s' = s1" by (simp_all add: api_call_first)
    with ok1 Inl inv show ?thesis by simp
  next
    case u: (Inr u)
    with ok1 obtain t where t: "token s1 = JString t" by auto
    obtain r2 s2 where impl: "api_call_impl e verb action params True s1 = (r2, s2)"
      by fastforce
    from api_call_impl_typed [OF gw t impl] t
    have ok2: "no_concat_error r2" "token s2 = JString t" by simp_all
    show ?thesis
    proof (cases r2)
      case (Inr j)
      with call pre u impl have "r = r2" "s' = s2" by (simp_all add: api_call_first)
      with ok2 show ?thesis by simp
    next
      case x: (Inl x)
      show ?thesis
      proof (cases "is_invalid_token x")
        case False
        with call pre u impl x have "r = r2" "s' = s2" by (simp_all add: api_call_first)
        with ok2 show ?thesis by simp
      next
        case True
        obtain r3 s3 where again: "refresh_token e s2 = (r3, s3)" by fastforce
        note ok3 = refresh_token_typed [OF gw again]
        show ?thesis
        proof (cases r3)
          case (Inl y)
          with call pre u impl x True again have "r = Inl y" "s' = s3"
            by (simp_all add: api_call_first)
          with ok3 Inl ok2 show ?thesis by simp
        next
          case (Inr u')
          with ok3 have inv3: "none_or_str (token s3)" by auto
          from call pre u impl x True again Inr
          have "api_call e verb action params True True s3 = (r, s')"
            by (simp add: api_call_first)
          from api_call_retry_typed [OF gw inv3 this] show ?thesis .
        qed
      qed
    qed
  qed
qed

lemma demo_gateway_well_typed:
  "well_typed_gateway (demo_env (Text ''{\"token\":\"t2\"}'') (Text ''{\"result\":true}'') (Raises OSError))"
  by (simp add: well_typed_gateway_def demo_env_def demo_loads_def fix_response_def)


text \<open>
  C10, as the code has it. \<open>refresh_token\<close> installs whatever value the \<open>token\<close> field
  holds. When the held token is absent or a string and the gateway is well typed, a call
  that needs a token never fails in \<^verbatim>\<open>'Bearer ' + token\<close>, and the token it leaves is again
  absent or a string.
\<close>

theorem api_call_bearer_token_is_string:
  assumes "well_typed_gateway e" and "none_or_str (token s)"
    and "api_call e verb action params True retry s = (r, s')"
  shows "(\<forall>v. r \<noteq> Inl (TypeError (CannotConcatenate v))) \<and> none_or_str (token s')"
proof (cases retry)
  case True
  with assms api_call_retry_typed [of e s verb action params r s'] show ?thesis
    by (simp add: no_concat_error_def)
next
  case False
  with assms api_call_first_typed [of e s verb action params r s'] show ?thesis
    by (simp add: no_concat_error_def)
qed

theorem api_call_bearer_token_is_string_witness:
  "api_call (demo_env (Text ''{\"token\":\"t2\"}'') (Text ''{\"result\":true}'') (Raises OSError))
      ''devices'' ''get'' JNull True False \<lparr>token = JNull, sent = []\<rparr>
   = (Inr (JDict [(''result'', JBool True)]),
      \<lparr>token = JString ''t2'',
       sent = [\<lparr>url = ''http://klf/api/v1/auth'',
                data = JDict [(''action'', JString ''login''),
                              (''params'', JDict [(''password'', JString ''secret'')])],
                headers = [(''Content-Type'', ''application/json'')]\<rparr>,
               \<lparr>url = ''http://klf/api/v1/devices'',
                data = JDict [(''action'', JString ''get'')],
                headers = [(''Content-Type'', ''application/json''),
                           (''Authorization'', ''Bearer t2'')]\<rparr>]\<rparr>)
   \<and> none_or_str (JString ''t2'')"
proof -
  let ?e = "demo_env (Text ''{\"token\":\"t2\"}'') (Text ''{\"result\":true}'') (Raises OSError)"
  let ?s = "\<lparr>token = JNull, sent = []\<rparr>"
  let ?s' = "\<lparr>token = JString ''t2'',
       sent = [\<lparr>url = ''http://klf/api/v1/auth'',
                data = JDict [(''action'', JString ''login''),
                              (''params'', JDict [(''password'', JString ''secret'')])],
                headers = [(''Content-Type'', ''application/json'')]\<rparr>,
               \<lparr>url = ''http://klf/api/v1/devices'',
                data = JDict [(''action'', JString ''get'')],
                headers = [(''Content-Type'', ''application/json''),
                           (''Authorization'', ''Bearer t2'')]\<rparr>]\<rparr>"
  have h1: "well_typed_gateway ?e" by (rule demo_gateway_well_typed)
  have h2: "none_or_str (token ?s)" by simp
  have h3: "api_call ?e ''devices'' ''get'' JNull True False ?s = (Inr (JDict [(''result'', JBool True)]), ?s')"
    by (simp add: demo_simps)
  from api_call_bearer_token_is_string [OF h1 h2 h3] h3 show ?thesis by simp
qed

text \<open>
  C10, as the specification has it, fails: no token is held, the gateway answers the login
  with \<^verbatim>\<open>{"token":null}\<close>, \<open>refresh_token\<close> returns with the token still absent, and the
  header construction raises the \<^verbatim>\<open>TypeError\<close> of the concatenation.
\<close>

theorem api_call_null_token_concatenated:
  "api_call (demo_env (Text ''{\"token\":null}'') (Text ''{\"result\":true}'') (Text ''{\"result\":true}''))
      ''devices'' ''get'' JNull True False \<lparr>token = JNull, sent = []\<rparr>
   = (Inl (TypeError (CannotConcatenate JNull)),
      \<lparr>token = JNull,
       sent = [\<lparr>url = ''http://klf/api/v1/auth'',
                data = JDict [(''action'', JString ''login''),
                              (''params'', JDict [(''password'', JString ''secret'')])],
                headers = [(''Content-Type'', ''application/json'')]\<rparr>]\<rparr>)"
  by (simp add: demo_simps)

end
